theory Spec2Isabelle
  imports Main
begin

section \<open>Values, errors and the codec\<close>

text \<open>
  JavaScript data values as far as \<^verbatim>\<open>entity.ts\<close> inspects them. Numbers are
  restricted to integers. Functions and promises are not data values here: they
  are modelled where the code calls them.
\<close>

datatype jsval =
    Undefined
  | Null
  | Bool bool
  | Num int
  | Str string
  | Arr "jsval list"
  | Obj "(string \<times> jsval) list"

text \<open>What a \<^verbatim>\<open>throw\<close> carries: one of the built-in error objects or any value.\<close>

datatype js_exn =
    JsError string
  | JsTypeError string
  | JsSyntaxError string
  | Thrown jsval

text \<open>
  The value \<^verbatim>\<open>JSON.stringify\<close> sees when it is handed a thrown value: an error
  object has no enumerable property of its own, so it is serialised like \<^verbatim>\<open>{}\<close>.
\<close>

fun exn_view :: "js_exn \<Rightarrow> jsval" where
  "exn_view (Thrown v) = v"
| "exn_view (JsError msg) = Obj []"
| "exn_view (JsTypeError msg) = Obj []"
| "exn_view (JsSyntaxError msg) = Obj []"

text \<open>
  \<^verbatim>\<open>JSON.stringify\<close> and \<^verbatim>\<open>JSON.parse\<close> belong to the runtime, not to the
  repository, so they are parameters of the model. \<open>stringify\<close> yields \<open>None\<close> where
  JavaScript yields \<^verbatim>\<open>undefined\<close>; \<open>parse\<close> yields \<open>None\<close> where JavaScript
  throws a \<^verbatim>\<open>SyntaxError\<close>.
\<close>

record codec =
  stringify :: "jsval \<Rightarrow> string option"
  parse :: "string \<Rightarrow> jsval option"

text \<open>JavaScript truthiness, for the conditions \<^verbatim>\<open>x ? a : b\<close> and \<^verbatim>\<open>if (x)\<close>.\<close>

fun truthy :: "jsval \<Rightarrow> bool" where
  "truthy Undefined = False"
| "truthy Null = False"
| "truthy (Bool b) = b"
| "truthy (Num n) = (n \<noteq> 0)"
| "truthy (Str s) = (s \<noteq> [])"
| "truthy (Arr xs) = True"
| "truthy (Obj kvs) = True"

text \<open>A field of type \<^verbatim>\<open>string | undefined\<close> read as a value.\<close>

fun text_value :: "string option \<Rightarrow> jsval" where
  "text_value None = Undefined"
| "text_value (Some s) = Str s"

section \<open>The data model\<close>

text \<open>
  Modelled from the spec: the classes of \<^verbatim>\<open>./classes\<close> are not among the sources.
  Their fields are the ones \<^verbatim>\<open>entity.ts\<close> reads and writes, in the order of the
  constructor calls found there.
\<close>

record EntityId =
  ent_name :: string
  ent_key :: string

record RequestMessage =
  name :: "string option"
  input :: "string option"

record OperationResult =
  isError :: bool
  duration :: int
  result :: "string option"

record Signal =
  target :: EntityId
  sig_name :: jsval
  sig_input :: "string option"

text \<open>
  \<open>results\<close> is a JavaScript array: a slot may be empty (\<open>None\<close>), and an indexed
  write past the end extends the array.
\<close>

record EntityState =
  entityExists :: bool
  entityState :: "string option"
  results :: "OperationResult option list"
  signals :: "Signal list"

record DurableEntityBindingInfo =
  self :: EntityId
  exists :: bool
  state :: "string option"
  batch :: "RequestMessage list"

text \<open>\<^verbatim>\<open>xs[i] = v\<close> on a JavaScript array.\<close>

definition js_assign :: "'a option list \<Rightarrow> nat \<Rightarrow> 'a \<Rightarrow> 'a option list" where
  "js_assign xs i v =
     (if i < length xs then xs[i := Some v]
      else xs @ replicate (i - length xs) None @ [Some v])"

text \<open>\<^verbatim>\<open>!xs[i]\<close> for an array of objects: the slot is empty or past the end.\<close>

definition slot_empty :: "'a option list \<Rightarrow> nat \<Rightarrow> bool" where
  "slot_empty xs i = (if i < length xs then xs ! i = None else True)"

section \<open>Objects with methods\<close>

text \<open>
  An object is its own properties and its prototype. A property holds a data
  value or a function. The functions the code meets are the methods of the
  user's entity class, which read and update the data fields of \<^verbatim>\<open>this\<close>, and
  the recording stubs that \<^verbatim>\<open>createEntityProxy\<close> installs; a stub remembers the
  property name \<^verbatim>\<open>p\<close> it closes over.
\<close>

datatype 'o settlement =
    Fulfilled jsval 'o
  | Rejected js_exn

datatype 'o call_result =
    Throws js_exn
  | Returns jsval 'o
  | Promise "'o settlement"

type_synonym fields = "(string \<times> jsval) list"
type_synonym meth = "fields \<Rightarrow> jsval list \<Rightarrow> fields call_result"

datatype fnval =
    Business meth
  | Stub string

datatype pval =
    Data jsval
  | Fn fnval

datatype jsobj = JsObject (own: "(string \<times> pval) list") (proto: "jsobj option")

fun is_function :: "pval \<Rightarrow> bool" where
  "is_function (Fn f) = True"
| "is_function (Data v) = False"

text \<open>\<^verbatim>\<open>obj[p]\<close>: the own property, else the prototype's.\<close>

fun get_prop :: "jsobj \<Rightarrow> string \<Rightarrow> pval" where
  "get_prop (JsObject ps pr) p =
     (case map_of ps p of
        Some v \<Rightarrow> v
      | None \<Rightarrow> (case pr of None \<Rightarrow> Data Undefined | Some ob \<Rightarrow> get_prop ob p))"

text \<open>
  \<^verbatim>\<open>obj[p] = v\<close> on plain properties: always an own property of \<^verbatim>\<open>obj\<close>. An
  existing key keeps its place and a new key goes to the end. JavaScript
  enumerates integer-like keys before the others; that reordering is not
  modelled, and the order of keys plays no part in the properties below.
\<close>

fun set_slot :: "(string \<times> pval) list \<Rightarrow> string \<Rightarrow> pval \<Rightarrow> (string \<times> pval) list" where
  "set_slot [] p v = [(p, v)]"
| "set_slot ((q, u) # ps) p v = (if q = p then (p, v) # ps else (q, u) # set_slot ps p v)"

fun set_prop :: "jsobj \<Rightarrow> string \<Rightarrow> pval \<Rightarrow> jsobj" where
  "set_prop (JsObject ps pr) p v = JsObject (set_slot ps p v) pr"

text \<open>The data fields of \<^verbatim>\<open>this\<close>: the own properties that hold data.\<close>

fun data_fields :: "(string \<times> pval) list \<Rightarrow> fields" where
  "data_fields [] = []"
| "data_fields ((k, Data v) # ps) = (k, v) # data_fields ps"
| "data_fields ((k, Fn f) # ps) = data_fields ps"

text \<open>What \<^verbatim>\<open>JSON.stringify(obj)\<close> looks at: own data properties, functions skipped.\<close>

definition json_view :: "jsobj \<Rightarrow> jsval" where
  "json_view ob = Obj (data_fields (own ob))"

definition write_fields :: "jsobj \<Rightarrow> fields \<Rightarrow> jsobj" where
  "write_fields ob fs = foldl (\<lambda>o' (k, v). set_prop o' k (Data v)) ob fs"

text \<open>Decimal text of an array index, for the keys \<^verbatim>\<open>"0"\<close>, \<^verbatim>\<open>"1"\<close>, ...\<close>

fun show_nat :: "nat \<Rightarrow> string" where
  "show_nat n =
     (if n < 10 then [char_of (48 + n)]
      else show_nat (n div 10) @ [char_of (48 + n mod 10)])"

text \<open>The own enumerable properties that \<^verbatim>\<open>Object.assign\<close> copies from a source value.\<close>

fun enum_props :: "jsval \<Rightarrow> fields" where
  "enum_props (Obj kvs) = kvs"
| "enum_props (Arr xs) = zip (map show_nat [0..<length xs]) xs"
| "enum_props (Str s) = zip (map show_nat [0..<length s]) (map (\<lambda>c. Str [c]) s)"
| "enum_props v = []"

definition object_assign :: "jsobj \<Rightarrow> jsval \<Rightarrow> jsobj" where
  "object_assign tgt src = write_fields tgt (enum_props src)"

text \<open>What a recording stub returns: \<^verbatim>\<open>{operationName: p, operationContent: args}\<close>.\<close>

definition stub_record :: "string \<Rightarrow> jsval list \<Rightarrow> jsval" where
  "stub_record p args = Obj [(''operationName'', Str p), (''operationContent'', Arr args)]"

text \<open>\<^verbatim>\<open>obj[p](...args)\<close> with \<^verbatim>\<open>this = obj\<close>.\<close>

definition call_method :: "jsobj \<Rightarrow> string \<Rightarrow> jsval list \<Rightarrow> jsobj call_result" where
  "call_method ob p args =
     (case get_prop ob p of
        Data v \<Rightarrow> Throws (JsTypeError ''not a function'')
      | Fn (Stub q) \<Rightarrow> Returns (stub_record q args) ob
      | Fn (Business m) \<Rightarrow>
          (case m (data_fields (own ob)) args of
             Throws e \<Rightarrow> Throws e
           | Returns v fs \<Rightarrow> Returns v (write_fields ob fs)
           | Promise (Fulfilled v fs) \<Rightarrow> Promise (Fulfilled v (write_fields ob fs))
           | Promise (Rejected e) \<Rightarrow> Promise (Rejected e)))"

text \<open>The spread \<^verbatim>\<open>...input\<close> of a call: only arrays and strings are iterable.\<close>

fun spread :: "jsval \<Rightarrow> js_exn + jsval list" where
  "spread (Arr xs) = Inr xs"
| "spread (Str s) = Inr (map (\<lambda>c. Str [c]) s)"
| "spread v = Inl (JsTypeError ''not iterable'')"

text \<open>\<^verbatim>\<open>v.p\<close> on a value: a \<^verbatim>\<open>TypeError\<close> on \<^verbatim>\<open>undefined\<close> and \<^verbatim>\<open>null\<close>.\<close>

fun member :: "jsval \<Rightarrow> string \<Rightarrow> js_exn + jsval" where
  "member Undefined p = Inl (JsTypeError ''cannot read properties of undefined'')"
| "member Null p = Inl (JsTypeError ''cannot read properties of null'')"
| "member (Obj kvs) p = Inr (case map_of kvs p of None \<Rightarrow> Undefined | Some v \<Rightarrow> v)"
| "member v p = Inr Undefined"

section \<open>The world the entity runs in\<close>

text \<open>
  \<open>acc\<close> is \<^verbatim>\<open>returnState\<close>, the one accumulator shared by the whole batch.
  \<open>clock\<close> holds the readings that future \<^verbatim>\<open>new Date()\<close> calls will return.
  \<open>heap\<close> holds the objects user code keeps references to. \<open>pending\<close> is the queue
  of suspended \<^verbatim>\<open>dispatch\<close> calls: the start time each closed over and how the
  promise it awaits settles.
\<close>

record world =
  acc :: EntityState
  clock :: "nat \<Rightarrow> int"
  heap :: "nat \<Rightarrow> jsobj"
  pending :: "(int \<times> jsobj settlement) list"

definition new_Date :: "world \<Rightarrow> int \<times> world" where
  "new_Date w = (clock w 0, w\<lparr>clock := (\<lambda>n. clock w (Suc n))\<rparr>)"

definition computeElapsedMilliseconds :: "int \<Rightarrow> world \<Rightarrow> int \<times> world" where
  "computeElapsedMilliseconds startTime w =
     (case new_Date w of (endTime, w') \<Rightarrow> (endTime - startTime, w'))"

section \<open>The context operations\<close>

definition destructOnExit :: "EntityState \<Rightarrow> EntityState" where
  "destructOnExit batchState = batchState\<lparr>entityExists := False, entityState := None\<rparr>"

definition getInput :: "codec \<Rightarrow> RequestMessage \<Rightarrow> js_exn + jsval" where
  "getInput cd currentRequest =
     (if truthy (text_value (input currentRequest)) then
        (case parse cd (the (input currentRequest)) of
           None \<Rightarrow> Inl (JsSyntaxError ''JSON.parse'')
         | Some v \<Rightarrow> Inr v)
      else Inr Undefined)"

definition getState :: "codec \<Rightarrow> EntityState \<Rightarrow> (unit \<Rightarrow> jsval) option \<Rightarrow> js_exn + jsval" where
  "getState cd returnState initializer =
     (if truthy (text_value (entityState returnState)) then
        (case parse cd (the (entityState returnState)) of
           None \<Rightarrow> Inl (JsSyntaxError ''JSON.parse'')
         | Some v \<Rightarrow> Inr v)
      else (case initializer of
              Some f \<Rightarrow> Inr (f ())
            | None \<Rightarrow> Inr Undefined))"

definition return :: "codec \<Rightarrow> int \<Rightarrow> jsval \<Rightarrow> world \<Rightarrow> world" where
  "return cd startTime res w =
     (case computeElapsedMilliseconds startTime w of
        (elapsedMs, w') \<Rightarrow>
          w'\<lparr>acc := (acc w')\<lparr>entityExists := True,
                results := results (acc w') @
                  [Some \<lparr>isError = False, duration = elapsedMs, result = stringify cd res\<rparr>]\<rparr>\<rparr>)"

definition setState :: "codec \<Rightarrow> EntityState \<Rightarrow> jsval \<Rightarrow> EntityState" where
  "setState cd returnState v =
     returnState\<lparr>entityExists := True, entityState := stringify cd v\<rparr>"

section \<open>Signals and the capturing proxy\<close>

text \<open>
  The \<^verbatim>\<open>do ... while (obj)\<close> loop of \<^verbatim>\<open>createEntityProxy\<close>: the own property
  names of the object, then those of each prototype in turn.
\<close>

fun all_props :: "jsobj \<Rightarrow> string list" where
  "all_props (JsObject ps pr) =
     map fst ps @ (case pr of None \<Rightarrow> [] | Some ob \<Rightarrow> all_props ob)"

text \<open>The body of \<^verbatim>\<open>props.forEach\<close>.\<close>

definition install_stub :: "jsobj \<Rightarrow> string \<Rightarrow> jsobj" where
  "install_stub entityObject p =
     (if is_function (get_prop entityObject p) then set_prop entityObject p (Fn (Stub p))
      else entityObject)"

text \<open>
  \<^verbatim>\<open>createEntityProxy(entityObject)\<close>. The argument is a reference: the object at
  that address is overwritten and the same address is returned.
\<close>

definition createEntityProxy :: "(nat \<Rightarrow> jsobj) \<Rightarrow> nat \<Rightarrow> (nat \<Rightarrow> jsobj) \<times> nat" where
  "createEntityProxy h entityObject =
     (let props = all_props (h entityObject)
      in (h(entityObject := foldl install_stub (h entityObject) props), entityObject))"

text \<open>
  The two call shapes of \<^verbatim>\<open>signalEntity\<close>, told apart by \<^verbatim>\<open>typeof(arg2)\<close>:
  an operation name with an input (\<open>Undefined\<close> when the caller passes none), or
  a reference to an entity object with a callback that receives the proxy.
\<close>

datatype sig_args =
    Explicit string jsval
  | Typed nat "jsobj \<Rightarrow> js_exn + jsval"

definition push_signal :: "codec \<Rightarrow> EntityId \<Rightarrow> jsval \<Rightarrow> jsval \<Rightarrow> EntityState \<Rightarrow> EntityState" where
  "push_signal cd entityId operationName operationInput returnState =
     returnState\<lparr>signals := signals returnState @
       [\<lparr>target = entityId, sig_name = operationName,
         sig_input = (if truthy operationInput then stringify cd operationInput else Some [])\<rparr>]\<rparr>"

definition signalEntity :: "codec \<Rightarrow> EntityId \<Rightarrow> sig_args \<Rightarrow> world \<Rightarrow> (js_exn + jsval) \<times> world" where
  "signalEntity cd entityId args w =
     (case args of
        Explicit arg2 arg3 \<Rightarrow>
          (let operationName = Str arg2;
               operationInput = (if truthy arg3 then text_value (stringify cd arg3) else Str [])
           in (Inr Undefined,
               w\<lparr>acc := push_signal cd entityId operationName operationInput (acc w)\<rparr>))
      | Typed entityObject action \<Rightarrow>
          (case createEntityProxy (heap w) entityObject of
             (h', proxy) \<Rightarrow>
               (let w' = w\<lparr>heap := h'\<rparr>
                in case action (h' proxy) of
                     Inl e \<Rightarrow> (Inl e, w')
                   | Inr signalParameters \<Rightarrow>
                       (case member signalParameters ''operationName'' of
                          Inl e \<Rightarrow> (Inl e, w')
                        | Inr operationName \<Rightarrow>
                            (case member signalParameters ''operationContent'' of
                               Inl e \<Rightarrow> (Inl e, w')
                             | Inr operationInput \<Rightarrow>
                                 (Inr Undefined,
                                  w'\<lparr>acc := push_signal cd entityId operationName
                                              operationInput (acc w')\<rparr>))))))"

section \<open>The method-dispatch helper\<close>

text \<open>
  \<^verbatim>\<open>dispatch\<close> is an \<^verbatim>\<open>async\<close> function. A call runs the body up to the first
  \<^verbatim>\<open>await\<close> and returns a promise: rejected when the body threw, resolved
  when it ran to its end without awaiting, pending when it reached
  \<^verbatim>\<open>await result\<close>. It never throws to its caller. The rest of a pending call is
  queued in \<open>pending\<close> and runs only when the current synchronous run is over.
\<close>

datatype promise = Resolved | Rejecting js_exn | Pending

definition quote :: "string \<Rightarrow> string" where
  "quote s = [CHR 0x22] @ s @ [CHR 0x22]"

definition dispatch ::
  "codec \<Rightarrow> RequestMessage \<Rightarrow> int \<Rightarrow> js_exn + jsobj \<Rightarrow> world \<Rightarrow> promise \<times> world" where
  "dispatch cd currentRequest startTime entityFactory w =
     (let operationName = name currentRequest in
      if \<not> truthy (text_value operationName) then
        (Rejecting (JsError ''Undefined operation''), w)
      else
        (case getState cd (acc w) (Some (\<lambda>_. Obj [])) of
           Inl e \<Rightarrow> (Rejecting e, w)
         | Inr st \<Rightarrow>
        (case entityFactory of
           Inl e \<Rightarrow> (Rejecting e, w)
         | Inr fresh \<Rightarrow>
        (let entity = object_assign fresh st in
         if \<not> is_function (get_prop entity (the operationName)) then
           (Rejecting (JsError (''Method '' @ quote (the operationName) @
                                 '' does not exist in entity'')), w)
         else
        (case getInput cd currentRequest of
           Inl e \<Rightarrow> (Rejecting e, w)
         | Inr inp \<Rightarrow>
        (case spread inp of
           Inl e \<Rightarrow> (Rejecting e, w)
         | Inr args \<Rightarrow>
        (case call_method entity (the operationName) args of
           Throws e \<Rightarrow> (Rejecting e, w)
         | Returns res entity' \<Rightarrow>
             (Resolved,
              return cd startTime res (w\<lparr>acc := setState cd (acc w) (json_view entity')\<rparr>))
         | Promise s \<Rightarrow>
             (Pending, w\<lparr>pending := pending w @ [(startTime, s)]\<rparr>))))))))"

text \<open>The rest of a suspended \<^verbatim>\<open>dispatch\<close>, run when the awaited promise has settled.\<close>

definition resume :: "codec \<Rightarrow> int \<times> jsobj settlement \<Rightarrow> world \<Rightarrow> world" where
  "resume cd k w =
     (case k of
        (startTime, Fulfilled res entity') \<Rightarrow>
          return cd startTime res (w\<lparr>acc := setState cd (acc w) (json_view entity')\<rparr>)
      | (startTime, Rejected e) \<Rightarrow> w)"

definition run_pending :: "codec \<Rightarrow> world \<Rightarrow> world" where
  "run_pending cd w = foldl (\<lambda>w' k. resume cd k w') (w\<lparr>pending := []\<rparr>) (pending w)"

section \<open>The per-operation context and user logic\<close>

text \<open>
  The object built by \<^verbatim>\<open>getCurrentDurableEntityContext\<close>: its data fields, and the
  request and start time its bound functions close over. The accumulator they
  close over is the shared \<open>acc\<close> of the world.
\<close>

record DurableEntityContext =
  entityName :: string
  entityKey :: string
  entityId :: EntityId
  operationName :: "string option"
  isNewlyConstructed :: bool
  currentRequest :: RequestMessage
  startTime :: int

definition getCurrentDurableEntityContext ::
  "DurableEntityBindingInfo \<Rightarrow> EntityState \<Rightarrow> nat \<Rightarrow> int \<Rightarrow> DurableEntityContext" where
  "getCurrentDurableEntityContext bindingInfo batchState requestIndex t0 =
     (let req = batch bindingInfo ! requestIndex in
      \<lparr>entityName = ent_name (self bindingInfo),
       entityKey = ent_key (self bindingInfo),
       entityId = self bindingInfo,
       operationName = name req,
       isNewlyConstructed = (\<not> entityExists batchState),
       currentRequest = req,
       startTime = t0\<rparr>)"

text \<open>One call of a function of the context, with its own arguments.\<close>

datatype ctx_op =
    GetState "(unit \<Rightarrow> jsval) option"
  | SetState jsval
  | GetInput
  | Return jsval
  | DestructOnExit
  | SignalEntity EntityId sig_args
  | Dispatch "js_exn + jsobj"

text \<open>
  What the call does to the world, and what the caller gets back: the value
  returned or the error thrown. The promise that \<^verbatim>\<open>dispatch\<close> returns is opaque
  to synchronous code; \<open>Undefined\<close> stands for it.
\<close>

definition apply_op ::
  "codec \<Rightarrow> DurableEntityContext \<Rightarrow> ctx_op \<Rightarrow> world \<Rightarrow> (js_exn + jsval) \<times> world" where
  "apply_op cd df op w =
     (case op of
        GetState initializer \<Rightarrow> (getState cd (acc w) initializer, w)
      | SetState v \<Rightarrow> (Inr Undefined, w\<lparr>acc := setState cd (acc w) v\<rparr>)
      | GetInput \<Rightarrow> (getInput cd (currentRequest df), w)
      | Return v \<Rightarrow> (Inr Undefined, return cd (startTime df) v w)
      | DestructOnExit \<Rightarrow> (Inr Undefined, w\<lparr>acc := destructOnExit (acc w)\<rparr>)
      | SignalEntity eid args \<Rightarrow> signalEntity cd eid args w
      | Dispatch entityFactory \<Rightarrow>
          (Inr Undefined, snd (dispatch cd (currentRequest df) (startTime df) entityFactory w)))"

text \<open>
  User operation logic, as synchronous code: it returns, throws, or calls a
  function of the context and goes on according to what the call gave back.
\<close>

datatype prog =
    Finish
  | Raise js_exn
  | Do ctx_op "js_exn + jsval \<Rightarrow> prog"

primrec run_prog :: "codec \<Rightarrow> DurableEntityContext \<Rightarrow> prog \<Rightarrow> world \<Rightarrow> js_exn option \<times> world" where
  "run_prog cd df Finish w = (None, w)"
| "run_prog cd df (Raise e) w = (Some e, w)"
| "run_prog cd df (Do op k) w =
     (case apply_op cd df op w of (r, w') \<Rightarrow> run_prog cd df (k r) w')"

section \<open>The batch driver\<close>

definition set_result :: "nat \<Rightarrow> OperationResult \<Rightarrow> world \<Rightarrow> world" where
  "set_result i r w = w\<lparr>acc := (acc w)\<lparr>results := js_assign (results (acc w)) i r\<rparr>\<rparr>"

text \<open>The body of the \<^verbatim>\<open>for\<close> loop of \<^verbatim>\<open>handle\<close>, for request \<open>i\<close>.\<close>

definition handle_step ::
  "codec \<Rightarrow> (DurableEntityContext \<Rightarrow> prog) \<Rightarrow> DurableEntityBindingInfo \<Rightarrow> nat \<Rightarrow> world \<Rightarrow> world" where
  "handle_step cd fn entityBinding i w =
     (case new_Date w of
        (t0, w1) \<Rightarrow>
          (let df = getCurrentDurableEntityContext entityBinding (acc w1) i t0 in
           case run_prog cd df (fn df) w1 of
             (None, w2) \<Rightarrow>
               if slot_empty (results (acc w2)) i then
                 (case computeElapsedMilliseconds t0 w2 of
                    (elapsedMs, w3) \<Rightarrow>
                      set_result i \<lparr>isError = False, duration = elapsedMs, result = None\<rparr> w3)
               else w2
           | (Some e, w2) \<Rightarrow>
               (case computeElapsedMilliseconds t0 w2 of
                  (elapsedMs, w3) \<Rightarrow>
                    set_result i \<lparr>isError = True, duration = elapsedMs,
                                  result = stringify cd (exn_view e)\<rparr> w3)))"

function handle_loop ::
  "codec \<Rightarrow> (DurableEntityContext \<Rightarrow> prog) \<Rightarrow> DurableEntityBindingInfo \<Rightarrow> nat \<Rightarrow> world \<Rightarrow> world" where
  "handle_loop cd fn entityBinding i w =
     (if i < length (batch entityBinding)
      then handle_loop cd fn entityBinding (Suc i) (handle_step cd fn entityBinding i w)
      else w)"
  by pat_completeness auto
termination
  by (relation "measure (\<lambda>(cd, fn, b, i, w). length (batch b) - i)") auto

declare handle_loop.simps [simp del]

text \<open>The \<^verbatim>\<open>// Setup\<close> lines of \<^verbatim>\<open>handle\<close>: the fresh accumulator.\<close>

definition setup_returnState :: "DurableEntityBindingInfo \<Rightarrow> EntityState" where
  "setup_returnState entityBinding =
     \<lparr>entityExists = exists entityBinding,
      entityState = state entityBinding,
      results = [], signals = []\<rparr>"

text \<open>
  \<^verbatim>\<open>handle\<close>: \<open>None\<close> stands for the missing binding. The result is the world at
  the call of \<^verbatim>\<open>context.done\<close>; its \<open>acc\<close> is what the host is handed.
\<close>

definition handle ::
  "codec \<Rightarrow> (DurableEntityContext \<Rightarrow> prog) \<Rightarrow> DurableEntityBindingInfo option \<Rightarrow> world
     \<Rightarrow> js_exn + world" where
  "handle cd fn binding w =
     (case binding of
        None \<Rightarrow> Inl (JsError ''Could not find an entityTrigger binding on context.'')
      | Some entityBinding \<Rightarrow>
          (let returnState = setup_returnState entityBinding
           in Inr (handle_loop cd fn entityBinding 0 (w\<lparr>acc := returnState\<rparr>))))"

section \<open>Vocabulary for the properties\<close>

text \<open>The calls that are neither \<^verbatim>\<open>setState\<close> nor \<^verbatim>\<open>destructOnExit\<close> nor \<^verbatim>\<open>dispatch\<close>.\<close>

fun keeps_state :: "ctx_op \<Rightarrow> bool" where
  "keeps_state (SetState v) = False"
| "keeps_state DestructOnExit = False"
| "keeps_state (Dispatch f) = False"
| "keeps_state (GetState i) = True"
| "keeps_state GetInput = True"
| "keeps_state (Return v) = True"
| "keeps_state (SignalEntity eid args) = True"

fun is_dispatch :: "ctx_op \<Rightarrow> bool" where
  "is_dispatch (Dispatch f) = True"
| "is_dispatch (GetState i) = False"
| "is_dispatch (SetState v) = False"
| "is_dispatch GetInput = False"
| "is_dispatch (Return v) = False"
| "is_dispatch DestructOnExit = False"
| "is_dispatch (SignalEntity eid args) = False"

text \<open>What a call writes into the \<open>entityExists\<close> flag, if anything.\<close>

fun exists_effect :: "ctx_op \<Rightarrow> bool option" where
  "exists_effect DestructOnExit = Some False"
| "exists_effect (SetState v) = Some True"
| "exists_effect (Return v) = Some True"
| "exists_effect (GetState i) = None"
| "exists_effect GetInput = None"
| "exists_effect (SignalEntity eid args) = None"
| "exists_effect (Dispatch f) = None"

text \<open>
  One step of a batch run: a call of a function of the context, made through
  the context of its request; a reading of the clock; or the write
  \<^verbatim>\<open>results[i] = r\<close> of the driver.
\<close>

datatype step =
    Call DurableEntityContext ctx_op
  | Tick
  | Record nat OperationResult

fun do_step :: "codec \<Rightarrow> step \<Rightarrow> world \<Rightarrow> world" where
  "do_step cd (Call df op) w = snd (apply_op cd df op w)"
| "do_step cd Tick w = snd (new_Date w)"
| "do_step cd (Record i r) w = set_result i r w"

definition run_steps :: "codec \<Rightarrow> step list \<Rightarrow> world \<Rightarrow> world" where
  "run_steps cd steps w = foldl (\<lambda>w' s. do_step cd s w') w steps"

fun step_keeps_state :: "step \<Rightarrow> bool" where
  "step_keeps_state (Call df op) = keeps_state op"
| "step_keeps_state Tick = True"
| "step_keeps_state (Record i r) = True"

text \<open>
  A step that writes no state in world \<open>w\<close>: any step but \<^verbatim>\<open>setState\<close>,
  \<^verbatim>\<open>destructOnExit\<close> and a \<^verbatim>\<open>dispatch\<close> that runs to its end, where it calls
  \<^verbatim>\<open>setState\<close> itself. A \<^verbatim>\<open>dispatch\<close> that is rejected or stays pending writes
  nothing.
\<close>

fun step_leaves_state :: "codec \<Rightarrow> step \<Rightarrow> world \<Rightarrow> bool" where
  "step_leaves_state cd (Call df op) w =
     (case op of
        Dispatch f \<Rightarrow> fst (dispatch cd (currentRequest df) (startTime df) f w) \<noteq> Resolved
      | SetState v \<Rightarrow> False
      | DestructOnExit \<Rightarrow> False
      | GetState i \<Rightarrow> True
      | GetInput \<Rightarrow> True
      | Return v \<Rightarrow> True
      | SignalEntity eid args \<Rightarrow> True)"
| "step_leaves_state cd Tick w = True"
| "step_leaves_state cd (Record i r) w = True"

text \<open>Every step of a run writes no state in the world in which it is taken.\<close>

fun steps_leave_state :: "codec \<Rightarrow> step list \<Rightarrow> world \<Rightarrow> bool" where
  "steps_leave_state cd [] w = True"
| "steps_leave_state cd (st # steps) w =
     (step_leaves_state cd st w \<and> steps_leave_state cd steps (do_step cd st w))"

fun step_is_dispatch :: "step \<Rightarrow> bool" where
  "step_is_dispatch (Call df op) = is_dispatch op"
| "step_is_dispatch Tick = False"
| "step_is_dispatch (Record i r) = False"

fun step_exists_effect :: "step \<Rightarrow> bool option" where
  "step_exists_effect (Call df op) = exists_effect op"
| "step_exists_effect Tick = None"
| "step_exists_effect (Record i r) = None"

text \<open>The flag after a sequence of steps, read off the steps alone: the last write wins.\<close>

definition exists_after :: "bool \<Rightarrow> step list \<Rightarrow> bool" where
  "exists_after b steps =
     foldl (\<lambda>b' s. case step_exists_effect s of None \<Rightarrow> b' | Some x \<Rightarrow> x) b steps"

text \<open>The calls that user logic makes when run in world \<open>w\<close>, in order.\<close>

primrec calls_of :: "codec \<Rightarrow> DurableEntityContext \<Rightarrow> prog \<Rightarrow> world \<Rightarrow> step list" where
  "calls_of cd df Finish w = []"
| "calls_of cd df (Raise e) w = []"
| "calls_of cd df (Do op k) w =
     (case apply_op cd df op w of (r, w') \<Rightarrow> Call df op # calls_of cd df (k r) w')"

text \<open>The steps of the loop body of \<^verbatim>\<open>handle\<close> for request \<open>i\<close>, started in world \<open>w\<close>.\<close>

definition request_steps ::
  "codec \<Rightarrow> (DurableEntityContext \<Rightarrow> prog) \<Rightarrow> DurableEntityBindingInfo \<Rightarrow> nat \<Rightarrow> world
     \<Rightarrow> step list" where
  "request_steps cd fn entityBinding i w =
     (case new_Date w of
        (t0, w1) \<Rightarrow>
          (let df = getCurrentDurableEntityContext entityBinding (acc w1) i t0 in
           case run_prog cd df (fn df) w1 of
             (None, w2) \<Rightarrow>
               Tick # calls_of cd df (fn df) w1 @
                 (if slot_empty (results (acc w2)) i
                  then [Tick, Record i \<lparr>isError = False, duration = clock w2 0 - t0,
                                        result = None\<rparr>]
                  else [])
           | (Some e, w2) \<Rightarrow>
               Tick # calls_of cd df (fn df) w1 @
                 [Tick, Record i \<lparr>isError = True, duration = clock w2 0 - t0,
                                  result = stringify cd (exn_view e)\<rparr>]))"

text \<open>The loop of \<^verbatim>\<open>handle\<close> stopped after its first \<open>k\<close> requests.\<close>

definition handle_upto ::
  "codec \<Rightarrow> (DurableEntityContext \<Rightarrow> prog) \<Rightarrow> DurableEntityBindingInfo \<Rightarrow> nat \<Rightarrow> world \<Rightarrow> world" where
  "handle_upto cd fn entityBinding k w =
     foldl (\<lambda>w' i. handle_step cd fn entityBinding i w') w [0..<k]"

text \<open>The steps of the first \<open>k\<close> rounds of the loop.\<close>

primrec upto_steps ::
  "codec \<Rightarrow> (DurableEntityContext \<Rightarrow> prog) \<Rightarrow> DurableEntityBindingInfo \<Rightarrow> world \<Rightarrow> nat
     \<Rightarrow> step list" where
  "upto_steps cd fn entityBinding w 0 = []"
| "upto_steps cd fn entityBinding w (Suc k) =
     upto_steps cd fn entityBinding w k @
       request_steps cd fn entityBinding k (handle_upto cd fn entityBinding k w)"

text \<open>
  How many results the user logic of request \<open>i\<close> appends (by \<^verbatim>\<open>return\<close>, or by a
  \<^verbatim>\<open>dispatch\<close> that runs to its end) when the loop body starts in world \<open>w\<close>.
\<close>

definition user_pushes ::
  "codec \<Rightarrow> (DurableEntityContext \<Rightarrow> prog) \<Rightarrow> DurableEntityBindingInfo \<Rightarrow> nat \<Rightarrow> world \<Rightarrow> nat" where
  "user_pushes cd fn entityBinding i w =
     (case new_Date w of
        (t0, w1) \<Rightarrow>
          (let df = getCurrentDurableEntityContext entityBinding (acc w1) i t0 in
           length (results (acc (snd (run_prog cd df (fn df) w1)))) - length (results (acc w1))))"

text \<open>The accumulator handed to the host, or nothing when \<^verbatim>\<open>handle\<close> threw.\<close>

fun handed :: "js_exn + world \<Rightarrow> EntityState option" where
  "handed (Inl e) = None"
| "handed (Inr w) = Some (acc w)"

section \<open>Sample inputs\<close>

text \<open>
  A finite part of JSON, enough for the examples below: each row pairs a value
  with the text \<^verbatim>\<open>JSON.stringify\<close> gives for it, and \<^verbatim>\<open>JSON.parse\<close> maps the
  text back. The examples use no other value and no other text.
\<close>

definition json_samples :: "(jsval \<times> string) list" where
  "json_samples =
     [(Null, ''null''),
      (Num 0, ''0''),
      (Num 1, ''1''),
      (Num 2, ''2''),
      (Num 5, ''5''),
      (Str ''5'', quote ''5''),
      (Arr [], ''[]''),
      (Arr [Num 5], ''[5]''),
      (Obj [], ''{}''),
      (Obj [(''counter'', Num 0)], ''{'' @ quote ''counter'' @ '':0}''),
      (Obj [(''counter'', Num 5)], ''{'' @ quote ''counter'' @ '':5}'')]"

definition sample_codec :: codec where
  "sample_codec =
     \<lparr>stringify = map_of json_samples,
      parse = map_of (map (\<lambda>(v, s). (s, v)) json_samples)\<rparr>"

text \<open>
  A sample entity class: a counter that starts at 0, with the methods
  \<^verbatim>\<open>add(n) { this.counter += n; return this.counter; }\<close>, \<^verbatim>\<open>get()\<close> which
  returns the counter, and \<^verbatim>\<open>addLater(n)\<close> which does what \<^verbatim>\<open>add\<close> does, but
  asynchronously. The methods are given for numbers only. The sample lists
  the methods the class declares; its \<^verbatim>\<open>constructor\<close> property and the members
  inherited from \<^verbatim>\<open>Object.prototype\<close> are left out, and the examples use no
  such name.
\<close>

definition add_method :: meth where
  "add_method fs args =
     (case (map_of fs ''counter'', args) of
        (Some (Num c), [Num n]) \<Rightarrow> Returns (Num (c + n)) [(''counter'', Num (c + n))]
      | _ \<Rightarrow> Throws (Thrown (Str ''add: bad arguments'')))"

definition get_method :: meth where
  "get_method fs args =
     (case map_of fs ''counter'' of
        Some v \<Rightarrow> Returns v []
      | None \<Rightarrow> Returns Undefined [])"

definition addLater_method :: meth where
  "addLater_method fs args =
     (case (map_of fs ''counter'', args) of
        (Some (Num c), [Num n]) \<Rightarrow> Promise (Fulfilled (Num (c + n)) [(''counter'', Num (c + n))])
      | _ \<Rightarrow> Promise (Rejected (Thrown (Str ''addLater: bad arguments''))))"

definition Counter_prototype :: jsobj where
  "Counter_prototype =
     JsObject [(''add'', Fn (Business add_method)),
               (''get'', Fn (Business get_method)),
               (''addLater'', Fn (Business addLater_method))] None"

definition new_Counter :: jsobj where
  "new_Counter = JsObject [(''counter'', Data (Num 0))] (Some Counter_prototype)"

text \<open>
  A world to start from: the clock advances one millisecond per reading, and
  every address of the heap holds a fresh instance of the sample class.
\<close>

definition world0 :: world where
  "world0 =
     \<lparr>acc = \<lparr>entityExists = False, entityState = None, results = [], signals = []\<rparr>,
      clock = (\<lambda>n. int n),
      heap = (\<lambda>a. new_Counter),
      pending = []\<rparr>"

definition sample_id :: EntityId where
  "sample_id = \<lparr>ent_name = ''counter'', ent_key = ''k1''\<rparr>"

text \<open>User logic that hands every request to \<^verbatim>\<open>dispatch\<close>.\<close>

definition dispatch_fn :: "DurableEntityContext \<Rightarrow> prog" where
  "dispatch_fn df = Do (Dispatch (Inr new_Counter)) (\<lambda>r. Finish)"

text \<open>User logic that calls \<^verbatim>\<open>return\<close> twice.\<close>

definition return_twice_fn :: "DurableEntityContext \<Rightarrow> prog" where
  "return_twice_fn df = Do (Return (Num 1)) (\<lambda>r. Do (Return (Num 2)) (\<lambda>r. Finish))"

definition binding_of :: "RequestMessage list \<Rightarrow> DurableEntityBindingInfo" where
  "binding_of reqs = \<lparr>self = sample_id, exists = False, state = None, batch = reqs\<rparr>"

text \<open>A world in which earlier requests have left state, a result and a signal.\<close>

definition busy_world :: world where
  "busy_world =
     world0\<lparr>acc := \<lparr>entityExists = True,
                    entityState = Some ''5'',
                    results = [Some \<lparr>isError = False, duration = 3, result = Some ''1''\<rparr>],
                    signals = [\<lparr>target = sample_id, sig_name = Str ''add'',
                                sig_input = Some ''[5]''\<rparr>]\<rparr>\<rparr>"

definition add_request :: RequestMessage where
  "add_request = \<lparr>name = Some ''add'', input = Some ''[5]''\<rparr>"

definition sample_df :: DurableEntityContext where
  "sample_df = getCurrentDurableEntityContext (binding_of [add_request]) (acc world0) 0 0"

definition later_df :: DurableEntityContext where
  "later_df = getCurrentDurableEntityContext
     (binding_of [add_request, \<lparr>name = Some ''get'', input = Some ''[]''\<rparr>]) (acc busy_world) 1 7"

text \<open>
  Steps between a write of the state and a later read that write no state: the
  rest of one request and the driver closing it, a request whose \<^verbatim>\<open>dispatch\<close>
  is rejected (no method of that name), one whose \<^verbatim>\<open>dispatch\<close> stays pending
  (the asynchronous method), and the start of a fourth request.
\<close>

definition between_batch :: "RequestMessage list" where
  "between_batch =
     [add_request,
      \<lparr>name = Some ''nope'', input = Some ''[5]''\<rparr>,
      \<lparr>name = Some ''addLater'', input = Some ''[5]''\<rparr>,
      \<lparr>name = Some ''get'', input = Some ''[]''\<rparr>]"

definition between_df :: "nat \<Rightarrow> DurableEntityContext" where
  "between_df i =
     getCurrentDurableEntityContext (binding_of between_batch) (acc busy_world) i 7"

definition between_steps :: "step list" where
  "between_steps =
     [Call (between_df 0) (SignalEntity sample_id (Explicit ''add'' (Num 5))),
      Call (between_df 0) GetInput,
      Tick,
      Record 1 \<lparr>isError = False, duration = 2, result = None\<rparr>,
      Tick,
      Call (between_df 1) (Dispatch (Inr new_Counter)),
      Tick,
      Record 2 \<lparr>isError = False, duration = 1, result = None\<rparr>,
      Tick,
      Call (between_df 2) (Dispatch (Inr new_Counter)),
      Tick,
      Record 3 \<lparr>isError = False, duration = 1, result = None\<rparr>,
      Tick,
      Call (between_df 3) (Return (Num 1)),
      Call (between_df 3) (GetState None)]"

text \<open>Steps that end with the entity destroyed.\<close>

definition flag_steps :: "step list" where
  "flag_steps =
     [Call sample_df (SetState (Num 5)),
      Call sample_df DestructOnExit,
      Call sample_df (GetState None),
      Call sample_df (SignalEntity sample_id (Explicit ''add'' (Num 5))),
      Tick,
      Record 1 \<lparr>isError = False, duration = 2, result = None\<rparr>,
      Call later_df GetInput]"

text \<open>A request for the method \<^verbatim>\<open>get\<close>, which takes no argument, with no input.\<close>

definition get_request :: RequestMessage where
  "get_request = \<lparr>name = Some ''get'', input = None\<rparr>"

text \<open>The callback \<^verbatim>\<open>e => e.add(5)\<close> of a typed signal.\<close>

definition add_five_action :: "jsobj \<Rightarrow> js_exn + jsval" where
  "add_five_action proxy =
     (case call_method proxy ''add'' [Num 5] of
        Returns v ob \<Rightarrow> Inr v
      | Throws e \<Rightarrow> Inl e
      | Promise s \<Rightarrow> Inr Undefined)"

text \<open>
  User logic that dispatches the operation \<^verbatim>\<open>add\<close>, throws on \<^verbatim>\<open>fail\<close> and does
  nothing on anything else, and a batch with one request of each kind.
\<close>

definition mixed_fn :: "DurableEntityContext \<Rightarrow> prog" where
  "mixed_fn df =
     (if operationName df = Some ''add'' then Do (Dispatch (Inr new_Counter)) (\<lambda>r. Finish)
      else if operationName df = Some ''fail'' then Raise (Thrown (Num 1))
      else Finish)"

definition mixed_batch :: "RequestMessage list" where
  "mixed_batch =
     [\<lparr>name = Some ''add'', input = Some ''[5]''\<rparr>,
      \<lparr>name = Some ''fail'', input = None\<rparr>,
      \<lparr>name = Some ''noop'', input = None\<rparr>]"

text \<open>
  Requests on which \<^verbatim>\<open>dispatch\<close> fails: an empty operation name, and a name
  that is no method of the sample class.
\<close>

definition failing_batch :: "RequestMessage list" where
  "failing_batch =
     [\<lparr>name = Some [], input = Some ''[5]''\<rparr>,
      \<lparr>name = Some ''nope'', input = Some ''[5]''\<rparr>]"

text \<open>A request for the asynchronous method, followed by a read of the counter.\<close>

definition later_batch :: "RequestMessage list" where
  "later_batch =
     [\<lparr>name = Some ''addLater'', input = Some ''[5]''\<rparr>,
      \<lparr>name = Some ''get'', input = Some ''[]''\<rparr>]"

section \<open>Properties of the accumulator operations\<close>

lemma acc_destruct:
  "acc (snd (apply_op cd df DestructOnExit w)) = destructOnExit (acc w)"
  by (simp add: apply_op_def)

text \<open>
  Claim C8. \<^verbatim>\<open>destructOnExit\<close> sets \<open>entityExists\<close> to false and clears
  \<open>entityState\<close>, and leaves the results and the signals recorded so far as they
  are. Later operations of the batch see it: a \<^verbatim>\<open>getState\<close> without initializer
  finds no value, and the next context built reports a newly constructed entity.
\<close>

theorem destructOnExit_clears:
  "entityExists (acc (snd (apply_op cd df DestructOnExit w))) = False
   \<and> entityState (acc (snd (apply_op cd df DestructOnExit w))) = None
   \<and> results (acc (snd (apply_op cd df DestructOnExit w))) = results (acc w)
   \<and> signals (acc (snd (apply_op cd df DestructOnExit w))) = signals (acc w)
   \<and> getState cd (acc (snd (apply_op cd df DestructOnExit w))) None = Inr Undefined
   \<and> isNewlyConstructed
        (getCurrentDurableEntityContext b (acc (snd (apply_op cd df DestructOnExit w))) i t0)"
  by (simp add: acc_destruct destructOnExit_def getState_def
        getCurrentDurableEntityContext_def Let_def)

theorem destructOnExit_clears_witness:
  "entityExists (acc busy_world)
   \<and> entityState (acc busy_world) = Some ''5''
   \<and> acc (snd (apply_op sample_codec sample_df DestructOnExit busy_world)) =
       \<lparr>entityExists = False, entityState = None,
        results = [Some \<lparr>isError = False, duration = 3, result = Some ''1''\<rparr>],
        signals = [\<lparr>target = sample_id, sig_name = Str ''add'', sig_input = Some ''[5]''\<rparr>]\<rparr>"
  using destructOnExit_clears [of sample_codec sample_df busy_world]
  by (simp add: busy_world_def world0_def)

text \<open>
  Claim C6. \<^verbatim>\<open>getState\<close> returns the decoded stored state when the state is
  present (a non-empty text); otherwise the result of the initializer when one
  is supplied; otherwise no value. The call leaves the whole world, and so the
  state, the flag, the results and the signals, as it found them.
\<close>

theorem getState_cases:
  "apply_op cd df (GetState initializer) w = (getState cd (acc w) initializer, w)
   \<and> (entityState st = Some s \<and> s \<noteq> [] \<and> parse cd s = Some v
        \<longrightarrow> getState cd st initializer = Inr v)
   \<and> (entityState st = None \<or> entityState st = Some []
        \<longrightarrow> getState cd st (Some f) = Inr (f ()) \<and> getState cd st None = Inr Undefined)"
  by (auto simp add: apply_op_def getState_def)

theorem getState_cases_witness:
  "getState sample_codec (acc busy_world) (Some (\<lambda>u. Num 1)) = Inr (Num 5)
   \<and> getState sample_codec (acc world0) (Some (\<lambda>u. Num 1)) = Inr (Num 1)
   \<and> getState sample_codec (acc world0) None = Inr Undefined
   \<and> snd (apply_op sample_codec sample_df (GetState (Some (\<lambda>u. Num 1))) world0) = world0"
proof -
  have a: "entityState (acc busy_world) = Some ''5'' \<and> ''5'' \<noteq> []
           \<and> parse sample_codec ''5'' = Some (Num 5)"
    by (simp add: busy_world_def world0_def sample_codec_def json_samples_def quote_def)
  have b: "entityState (acc world0) = None \<or> entityState (acc world0) = Some []"
    by (simp add: world0_def)
  from a b
    getState_cases [of sample_codec sample_df "Some (\<lambda>u. Num 1)" busy_world
      "acc busy_world" "''5''" "Num 5"]
    getState_cases [of sample_codec sample_df "Some (\<lambda>u. Num 1)" world0
      "acc world0" "''5''" "Num 5" "\<lambda>u. Num 1"]
  show ?thesis by simp
qed

lemma return_acc:
  "acc (return cd t0 v w) =
     (acc w)\<lparr>entityExists := True,
             results := results (acc w) @
               [Some \<lparr>isError = False, duration = clock w 0 - t0, result = stringify cd v\<rparr>]\<rparr>"
  by (simp add: return_def computeElapsedMilliseconds_def new_Date_def)

lemma signalEntity_frame:
  "entityExists (acc (snd (signalEntity cd eid args w))) = entityExists (acc w)
   \<and> entityState (acc (snd (signalEntity cd eid args w))) = entityState (acc w)
   \<and> results (acc (snd (signalEntity cd eid args w))) = results (acc w)"
  by (cases args)
     (simp_all add: signalEntity_def push_signal_def Let_def createEntityProxy_def
        split: sum.splits)

lemma dispatch_acc:
  "acc (snd (dispatch cd req t0 f w)) = acc w \<and> fst (dispatch cd req t0 f w) \<noteq> Resolved
   \<or> fst (dispatch cd req t0 f w) = Resolved \<and> entityExists (acc (snd (dispatch cd req t0 f w)))"
  unfolding dispatch_def
  by (simp add: Let_def return_acc setState_def split: sum.splits call_result.splits)

lemma keeps_state_entityState:
  "keeps_state op \<Longrightarrow> entityState (acc (snd (apply_op cd df op w))) = entityState (acc w)"
proof (cases op)
qed (simp_all add: apply_op_def return_acc signalEntity_frame)

lemma step_leaves_entityState:
  "step_leaves_state cd st w \<Longrightarrow> entityState (acc (do_step cd st w)) = entityState (acc w)"
proof (cases st)
  case (Call df op)
  assume leaves: "step_leaves_state cd st w"
  show ?thesis
  proof (cases op)
    case (Dispatch f)
    with leaves Call
    have "fst (dispatch cd (currentRequest df) (startTime df) f w) \<noteq> Resolved" by simp
    with dispatch_acc [of cd "currentRequest df" "startTime df" f w]
    have "acc (snd (dispatch cd (currentRequest df) (startTime df) f w)) = acc w" by blast
    with Call Dispatch show ?thesis by (simp add: apply_op_def)
  qed (use leaves Call in \<open>simp_all add: keeps_state_entityState\<close>)
qed (simp_all add: new_Date_def set_result_def)

lemma run_steps_entityState:
  "steps_leave_state cd steps w \<Longrightarrow>
   entityState (acc (run_steps cd steps w)) = entityState (acc w)"
  unfolding run_steps_def
  by (induction steps arbitrary: w) (simp_all add: step_leaves_entityState)

text \<open>Steps that are no \<^verbatim>\<open>setState\<close>, \<^verbatim>\<open>destructOnExit\<close> or \<^verbatim>\<open>dispatch\<close> write no state.\<close>

lemma keeps_state_step_leaves_state:
  "step_keeps_state st \<Longrightarrow> step_leaves_state cd st w"
proof (cases st)
  case (Call df op)
  assume "step_keeps_state st"
  with Call show ?thesis by (cases op) simp_all
qed simp_all

lemma keeps_state_steps_leave_state:
  "\<forall>st \<in> set steps. step_keeps_state st \<Longrightarrow> steps_leave_state cd steps w"
  by (induction steps arbitrary: w) (simp_all add: keeps_state_step_leaves_state)

text \<open>
  Claim C5. For a value the codec represents (\<^verbatim>\<open>stringify\<close> gives a non-empty
  text that \<^verbatim>\<open>parse\<close> maps back to it), \<^verbatim>\<open>setState(v)\<close> followed by
  \<^verbatim>\<open>getState\<close> returns \<open>v\<close>, through the context of the same or of a later
  request, whatever steps come between, as long as none of them is a
  \<^verbatim>\<open>setState\<close> or a \<^verbatim>\<open>destructOnExit\<close>, called by user logic or by a
  \<^verbatim>\<open>dispatch\<close> that runs to its end. A \<^verbatim>\<open>dispatch\<close> that is rejected or stays
  pending may come between.
\<close>

theorem setState_getState_roundtrip:
  assumes "stringify cd v = Some s" and "s \<noteq> []" and "parse cd s = Some v"
    and "steps_leave_state cd steps (snd (apply_op cd df (SetState v) w))"
  shows "fst (apply_op cd df' (GetState initializer)
            (run_steps cd steps (snd (apply_op cd df (SetState v) w)))) = Inr v"
proof -
  let ?w1 = "snd (apply_op cd df (SetState v) w)"
  have "entityState (acc ?w1) = Some s"
    using assms(1) by (simp add: apply_op_def setState_def)
  then have "entityState (acc (run_steps cd steps ?w1)) = Some s"
    using assms(4) by (simp add: run_steps_entityState)
  then show ?thesis
    using assms(2,3) by (simp add: apply_op_def getState_def)
qed

theorem setState_getState_roundtrip_witness:
  "fst (dispatch sample_codec (between_batch ! 1) 7 (Inr new_Counter)
         (snd (apply_op sample_codec sample_df (SetState (Obj [(''counter'', Num 5)]))
                 busy_world)))
     = Rejecting (JsError (''Method '' @ quote ''nope'' @ '' does not exist in entity''))
   \<and> fst (dispatch sample_codec (between_batch ! 2) 7 (Inr new_Counter)
         (snd (apply_op sample_codec sample_df (SetState (Obj [(''counter'', Num 5)]))
                 busy_world)))
     = Pending
   \<and> fst (apply_op sample_codec (between_df 3) (GetState None)
         (run_steps sample_codec between_steps
            (snd (apply_op sample_codec sample_df (SetState (Obj [(''counter'', Num 5)]))
                    busy_world))))
     = Inr (Obj [(''counter'', Num 5)])"
proof -
  let ?s = "''{'' @ quote ''counter'' @ '':5}''"
  let ?w1 = "snd (apply_op sample_codec sample_df (SetState (Obj [(''counter'', Num 5)]))
                busy_world)"
  have a: "stringify sample_codec (Obj [(''counter'', Num 5)]) = Some ?s"
    by (simp add: sample_codec_def json_samples_def)
  have b: "?s \<noteq> []" by simp
  have c: "parse sample_codec ?s = Some (Obj [(''counter'', Num 5)])"
    by (simp add: sample_codec_def json_samples_def quote_def)
  have d: "steps_leave_state sample_codec between_steps ?w1"
    by code_simp
  have e: "fst (dispatch sample_codec (between_batch ! 1) 7 (Inr new_Counter) ?w1)
             = Rejecting (JsError (''Method '' @ quote ''nope'' @ '' does not exist in entity''))"
    by code_simp
  have f: "fst (dispatch sample_codec (between_batch ! 2) 7 (Inr new_Counter) ?w1) = Pending"
    by code_simp
  from e f setState_getState_roundtrip [OF a b c d, of "between_df 3" None]
  show ?thesis by blast
qed

lemma apply_op_exists:
  "\<not> is_dispatch op \<Longrightarrow>
   entityExists (acc (snd (apply_op cd df op w))) =
     (case exists_effect op of None \<Rightarrow> entityExists (acc w) | Some x \<Rightarrow> x)"
proof (cases op)
qed (simp_all add: apply_op_def return_acc setState_def destructOnExit_def signalEntity_frame)

lemma do_step_exists:
  "\<not> step_is_dispatch st \<Longrightarrow>
   entityExists (acc (do_step cd st w)) =
     (case step_exists_effect st of None \<Rightarrow> entityExists (acc w) | Some x \<Rightarrow> x)"
  by (cases st) (simp_all add: apply_op_exists new_Date_def set_result_def)

lemma run_steps_exists:
  "\<forall>st \<in> set steps. \<not> step_is_dispatch st \<Longrightarrow>
   entityExists (acc (run_steps cd steps w)) = exists_after (entityExists (acc w)) steps"
  unfolding run_steps_def exists_after_def
  by (induction steps arbitrary: w) (simp_all add: do_step_exists)

text \<open>
  Claim C7. Over a sequence of steps of a batch the \<open>entityExists\<close> flag is what
  the last \<^verbatim>\<open>destructOnExit\<close> (false), \<^verbatim>\<open>setState\<close> or \<^verbatim>\<open>return\<close> (true) of
  the sequence wrote, and the flag it started with when there is none: no
  other step changes it. A \<^verbatim>\<open>dispatch\<close> changes it only by running to its end,
  where it calls \<^verbatim>\<open>setState\<close> and \<^verbatim>\<open>return\<close> itself.
\<close>

theorem entityExists_transitions:
  "((\<forall>st \<in> set steps. \<not> step_is_dispatch st) \<longrightarrow>
      entityExists (acc (run_steps cd steps w)) = exists_after (entityExists (acc w)) steps)
   \<and> entityExists (acc (snd (apply_op cd df (Dispatch f) w))) =
       (fst (dispatch cd (currentRequest df) (startTime df) f w) = Resolved
        \<or> entityExists (acc w))"
proof -
  have "entityExists (acc (snd (apply_op cd df (Dispatch f) w))) =
       (fst (dispatch cd (currentRequest df) (startTime df) f w) = Resolved
        \<or> entityExists (acc w))"
    using dispatch_acc [of cd "currentRequest df" "startTime df" f w]
    by (auto simp add: apply_op_def)
  then show ?thesis by (simp add: run_steps_exists)
qed

theorem entityExists_transitions_witness:
  "entityExists (acc busy_world)
   \<and> \<not> entityExists (acc (run_steps sample_codec flag_steps busy_world))
   \<and> entityExists (acc (run_steps sample_codec
         (flag_steps @ [Call later_df (Return (Num 1)), Call later_df GetInput]) busy_world))"
proof -
  let ?more = "flag_steps @ [Call later_df (Return (Num 1)), Call later_df GetInput]"
  have a: "\<forall>st \<in> set flag_steps. \<not> step_is_dispatch st"
    by (simp add: flag_steps_def)
  have b: "\<forall>st \<in> set ?more. \<not> step_is_dispatch st"
    by (simp add: flag_steps_def)
  have c: "entityExists (acc busy_world)"
    by (simp add: busy_world_def)
  from a b c
    entityExists_transitions [of flag_steps sample_codec busy_world]
    entityExists_transitions [of ?more sample_codec busy_world]
  show ?thesis
    by (simp add: exists_after_def flag_steps_def)
qed

section \<open>Properties of signals\<close>

text \<open>
  Claim C3, amended. A call of \<^verbatim>\<open>signalEntity\<close> in its explicit shape appends one
  signal, which carries the given target and name; its input is the empty
  text when the given input is absent or falsy (\<^verbatim>\<open>undefined\<close>, \<^verbatim>\<open>null\<close>,
  \<^verbatim>\<open>false\<close>, \<^verbatim>\<open>0\<close>, the empty string).
\<close>

theorem signalEntity_explicit_signal:
  "(\<exists>inp. signals (acc (snd (signalEntity cd eid (Explicit nm arg3) w))) =
            signals (acc w) @ [\<lparr>target = eid, sig_name = Str nm, sig_input = inp\<rparr>])
   \<and> (\<not> truthy arg3 \<longrightarrow>
        signals (acc (snd (signalEntity cd eid (Explicit nm arg3) w))) =
          signals (acc w) @ [\<lparr>target = eid, sig_name = Str nm, sig_input = Some []\<rparr>])"
  by (simp add: signalEntity_def push_signal_def Let_def)

theorem signalEntity_explicit_signal_witness:
  "signals (acc (snd (signalEntity sample_codec sample_id (Explicit ''add'' Undefined) busy_world)))
     = signals (acc busy_world) @
         [\<lparr>target = sample_id, sig_name = Str ''add'', sig_input = Some []\<rparr>]"
proof -
  have "\<not> truthy Undefined" by simp
  with signalEntity_explicit_signal [of sample_codec sample_id "''add''" Undefined busy_world]
  show ?thesis by blast
qed

text \<open>
  The claim as first stated fails for an input that is supplied but falsy: the
  input \<^verbatim>\<open>0\<close> is serialised as \<^verbatim>\<open>"0"\<close>, yet the signal carries the empty text.
\<close>

theorem signalEntity_supplied_zero_counterexample:
  "signals (acc (snd (signalEntity sample_codec sample_id (Explicit ''add'' (Num 0)) world0)))
     = [\<lparr>target = sample_id, sig_name = Str ''add'', sig_input = Some []\<rparr>]
   \<and> stringify sample_codec (Num 0) = Some ''0''"
  by (simp add: signalEntity_def push_signal_def Let_def world0_def sample_codec_def
        json_samples_def)

text \<open>
  For a truthy input the explicit shape serialises twice: once in its own
  branch and once more where the signal is built.
\<close>

lemma signalEntity_explicit_encodes_twice:
  "truthy arg3 \<Longrightarrow> stringify cd arg3 = Some s \<Longrightarrow> s \<noteq> [] \<Longrightarrow>
   sig_input (last (signals (acc (snd (signalEntity cd eid (Explicit nm arg3) w)))))
     = stringify cd (Str s)"
  by (simp add: signalEntity_def push_signal_def Let_def)

lemma signalEntity_five_example:
  "signals (acc (snd (signalEntity sample_codec sample_id (Explicit ''add'' (Num 5)) world0)))
     = [\<lparr>target = sample_id, sig_name = Str ''add'', sig_input = Some (quote ''5'')\<rparr>]
   \<and> stringify sample_codec (Num 5) = Some ''5''"
  by (simp add: signalEntity_def push_signal_def Let_def world0_def sample_codec_def
        json_samples_def)

lemma map_of_set_slot:
  "map_of (set_slot ps q v) p = (if p = q then Some v else map_of ps p)"
  by (induction ps q v rule: set_slot.induct) auto

lemma get_prop_set_prop:
  "get_prop (set_prop ob q v) p = (if p = q then v else get_prop ob p)"
  by (cases ob) (simp add: map_of_set_slot)

lemma get_prop_install_stub:
  "get_prop (install_stub ob q) p =
     (if p = q \<and> is_function (get_prop ob q) then Fn (Stub q) else get_prop ob p)"
  by (simp add: install_stub_def get_prop_set_prop)

lemma get_prop_stubs:
  "get_prop (foldl install_stub ob ps) p =
     (if p \<in> set ps \<and> is_function (get_prop ob p) then Fn (Stub p) else get_prop ob p)"
proof (induction ps arbitrary: ob)
  case Nil
  then show ?case by simp
next
  case (Cons q ps)
  have fn: "is_function (get_prop (install_stub ob q) p) = is_function (get_prop ob p)"
    by (simp add: get_prop_install_stub)
  show ?case
    by (auto simp add: Cons.IH fn get_prop_install_stub)
qed

lemma function_in_all_props:
  "is_function (get_prop ob p) \<Longrightarrow> p \<in> set (all_props ob)"
proof (induction ob p rule: get_prop.induct)
  case (1 ps pr p)
  show ?case
  proof (cases "map_of ps p")
    case (Some v)
    then have "p \<in> dom (map_of ps)" by (rule domI)
    then have "p \<in> fst ` set ps" by (simp add: dom_map_of_conv_image_fst)
    then show ?thesis by simp
  next
    case None
    with "1.prems" obtain ob where pr: "pr = Some ob" and "is_function (get_prop ob p)"
      by (cases pr) auto
    with "1.IH" None have "p \<in> set (all_props ob)" by simp
    with pr show ?thesis by simp
  qed
qed

lemma signalEntity_typed_heap:
  "heap (snd (signalEntity cd eid (Typed a action) w)) = fst (createEntityProxy (heap w) a)"
  by (simp add: signalEntity_def createEntityProxy_def Let_def split: sum.splits)

text \<open>
  Claim C10. The proxy of a typed signal is the caller's own object: the
  reference returned is the one passed in, the object at that address is
  overwritten and no other. After the call every property that held a function,
  on the object or along its prototype chain, holds the stub for its name, and
  calling it with arguments \<open>args\<close> no longer runs the method but returns the
  record \<^verbatim>\<open>{operationName: p, operationContent: args}\<close>; the other properties
  are as before. The heap that \<^verbatim>\<open>signalEntity\<close>
  leaves behind is this one.
\<close>

theorem createEntityProxy_in_place:
  "snd (createEntityProxy h a) = a
   \<and> (\<forall>b. b \<noteq> a \<longrightarrow> fst (createEntityProxy h a) b = h b)
   \<and> (\<forall>p. is_function (get_prop (h a) p) \<longrightarrow>
         get_prop (fst (createEntityProxy h a) a) p = Fn (Stub p)
         \<and> (\<forall>args. call_method (fst (createEntityProxy h a) a) p args =
               Returns (Obj [(''operationName'', Str p), (''operationContent'', Arr args)])
                 (fst (createEntityProxy h a) a)))
   \<and> (\<forall>p. \<not> is_function (get_prop (h a) p) \<longrightarrow>
         get_prop (fst (createEntityProxy h a) a) p = get_prop (h a) p)
   \<and> heap (snd (signalEntity cd eid (Typed a action) w)) = fst (createEntityProxy (heap w) a)"
proof -
  let ?ob = "foldl install_stub (h a) (all_props (h a))"
  have h': "fst (createEntityProxy h a) = h(a := ?ob)" and same: "snd (createEntityProxy h a) = a"
    by (simp_all add: createEntityProxy_def Let_def)
  have stub: "get_prop ?ob p = Fn (Stub p)" if "is_function (get_prop (h a) p)" for p
    using that by (simp add: get_prop_stubs function_in_all_props)
  have call: "call_method ?ob p args =
      Returns (Obj [(''operationName'', Str p), (''operationContent'', Arr args)]) ?ob"
    if "is_function (get_prop (h a) p)" for p args
    using stub [OF that] by (simp add: call_method_def stub_record_def)
  have keep: "get_prop ?ob p = get_prop (h a) p" if "\<not> is_function (get_prop (h a) p)" for p
    using that by (simp add: get_prop_stubs)
  show ?thesis
    by (simp add: h' same stub call keep signalEntity_typed_heap)
qed

theorem createEntityProxy_in_place_witness:
  "call_method (heap world0 0) ''add'' [Num 5] =
     Returns (Num 5) (JsObject [(''counter'', Data (Num 5))] (Some Counter_prototype))
   \<and> call_method (heap (snd (signalEntity sample_codec sample_id (Typed 0 add_five_action) world0)) 0)
        ''add'' [Num 5] =
       Returns (Obj [(''operationName'', Str ''add''), (''operationContent'', Arr [Num 5])])
         (heap (snd (signalEntity sample_codec sample_id (Typed 0 add_five_action) world0)) 0)
   \<and> get_prop (heap (snd (signalEntity sample_codec sample_id (Typed 0 add_five_action) world0)) 0)
        ''counter'' = Data (Num 0)"
proof -
  have f: "is_function (get_prop (heap world0 0) ''add'')"
    by (simp add: world0_def new_Counter_def Counter_prototype_def)
  have d: "\<not> is_function (get_prop (heap world0 0) ''counter'')"
    by (simp add: world0_def new_Counter_def Counter_prototype_def)
  have c: "get_prop (heap world0 0) ''counter'' = Data (Num 0)"
    by (simp add: world0_def new_Counter_def Counter_prototype_def)
  have before: "call_method (heap world0 0) ''add'' [Num 5] =
     Returns (Num 5) (JsObject [(''counter'', Data (Num 5))] (Some Counter_prototype))"
    by (simp add: call_method_def world0_def new_Counter_def Counter_prototype_def
          add_method_def write_fields_def)
  from f d c before
    createEntityProxy_in_place [of "heap world0" 0 sample_codec sample_id add_five_action world0]
  show ?thesis by simp
qed

lemma typed_signal_example:
  "signals (acc (snd (signalEntity sample_codec sample_id (Typed 0 add_five_action) world0)))
     = [\<lparr>target = sample_id, sig_name = Str ''add'', sig_input = Some ''[5]''\<rparr>]"
  by (simp add: signalEntity_def createEntityProxy_def Let_def world0_def new_Counter_def
        Counter_prototype_def install_stub_def add_five_action_def call_method_def
        stub_record_def push_signal_def sample_codec_def json_samples_def)

section \<open>Properties of the method-dispatch helper\<close>

text \<open>
  Claim C9. When the input of the request is absent or empty, the operation
  name is non-empty and names a function-valued member of the constructed
  entity object, \<^verbatim>\<open>dispatch\<close> fails at the call of the method, where the spread
  of the undefined input raises a \<^verbatim>\<open>TypeError\<close>: its promise is rejected, no
  state is written and no result recorded.
\<close>

theorem dispatch_absent_input_rejects:
  assumes "\<not> truthy (text_value (input req))"
    and "name req = Some nm" and "nm \<noteq> []"
    and "getState cd (acc w) (Some (\<lambda>u. Obj [])) = Inr st"
    and "is_function (get_prop (object_assign fresh st) nm)"
  shows "dispatch cd req t0 (Inr fresh) w = (Rejecting (JsTypeError ''not iterable''), w)"
  using assms by (simp add: dispatch_def getInput_def Let_def)

theorem dispatch_absent_input_rejects_witness:
  "dispatch sample_codec get_request 0 (Inr new_Counter) world0
     = (Rejecting (JsTypeError ''not iterable''), world0)"
proof -
  have a: "\<not> truthy (text_value (input get_request))" by (simp add: get_request_def)
  have b: "name get_request = Some ''get''" by (simp add: get_request_def)
  have c: "''get'' \<noteq> []" by simp
  have d: "getState sample_codec (acc world0) (Some (\<lambda>u. Obj [])) = Inr (Obj [])"
    by (simp add: getState_def world0_def)
  have e: "is_function (get_prop (object_assign new_Counter (Obj [])) ''get'')"
    by (simp add: object_assign_def write_fields_def new_Counter_def Counter_prototype_def)
  show ?thesis
    by (rule dispatch_absent_input_rejects [OF a b c d e])
qed

section \<open>Properties of the batch driver\<close>

lemma new_Date_acc: "acc (snd (new_Date w)) = acc w"
  by (simp add: new_Date_def)

lemma elapsed_acc: "acc (snd (computeElapsedMilliseconds t0 w)) = acc w"
  by (simp add: computeElapsedMilliseconds_def new_Date_def)

lemma dispatch_results:
  "\<exists>zs. results (acc (snd (dispatch cd req t0 f w))) = results (acc w) @ zs \<and> None \<notin> set zs"
  unfolding dispatch_def
  by (simp add: Let_def return_acc setState_def split: sum.splits call_result.splits)

lemma apply_op_results:
  "\<exists>zs. results (acc (snd (apply_op cd df op w))) = results (acc w) @ zs \<and> None \<notin> set zs"
proof (cases op)
  case (Dispatch f)
  then show ?thesis using dispatch_results by (simp add: apply_op_def)
qed (simp_all add: apply_op_def return_acc setState_def destructOnExit_def signalEntity_frame)

lemma run_prog_results:
  "\<exists>zs. results (acc (snd (run_prog cd df p w))) = results (acc w) @ zs \<and> None \<notin> set zs"
proof (induction p arbitrary: w)
  case Finish
  then show ?case by simp
next
  case (Raise e)
  then show ?case by simp
next
  case (Do op k)
  obtain r w' where step: "apply_op cd df op w = (r, w')" by (cases "apply_op cd df op w")
  obtain zs where zs: "results (acc w') = results (acc w) @ zs" "None \<notin> set zs"
    using apply_op_results [of cd df op w] step by auto
  have "k r \<in> range k" by simp
  from Do.IH [OF this, of w']
  obtain ys where ys: "results (acc (snd (run_prog cd df (k r) w'))) = results (acc w') @ ys"
      "None \<notin> set ys" by auto
  have "results (acc (snd (run_prog cd df (Do op k) w))) = results (acc w) @ (zs @ ys)"
    using step zs ys by simp
  moreover have "None \<notin> set (zs @ ys)" using zs ys by simp
  ultimately show ?case by blast
qed

lemma js_assign_append: "js_assign xs (length xs) r = xs @ [Some r]"
  by (simp add: js_assign_def)

lemma js_assign_inside: "i < length xs \<Longrightarrow> js_assign xs i r = xs[i := Some r]"
  by (simp add: js_assign_def)

lemma js_assign_last: "js_assign (xs @ [y]) (length xs) r = xs @ [Some r]"
  by (simp add: js_assign_def)

lemma slot_empty_full:
  assumes "None \<notin> set xs"
  shows "slot_empty xs i = (length xs \<le> i)"
proof (cases "i < length xs")
  case True
  then have "xs ! i \<in> set xs" by simp
  with assms have "xs ! i \<noteq> None" by metis
  with True show ?thesis by (simp add: slot_empty_def)
next
  case False
  then show ?thesis by (simp add: slot_empty_def)
qed

lemma handle_step_results:
  assumes "new_Date w = (t0, w1)"
    and "run_prog cd (getCurrentDurableEntityContext b (acc w1) i t0)
           (fn (getCurrentDurableEntityContext b (acc w1) i t0)) w1 = (x, w2)"
  shows "\<exists>r. results (acc (handle_step cd fn b i w)) =
           (if x \<noteq> None \<or> slot_empty (results (acc w2)) i
            then js_assign (results (acc w2)) i r else results (acc w2))"
  using assms
  by (cases x)
     (auto simp add: handle_step_def Let_def set_result_def computeElapsedMilliseconds_def
        new_Date_def split: prod.splits)

lemma handle_step_grows:
  assumes "i \<le> length (results (acc w))" and "None \<notin> set (results (acc w))"
  shows "Suc i \<le> length (results (acc (handle_step cd fn b i w)))
         \<and> None \<notin> set (results (acc (handle_step cd fn b i w)))"
proof -
  obtain t0 w1 where nd: "new_Date w = (t0, w1)" by (cases "new_Date w")
  let ?df = "getCurrentDurableEntityContext b (acc w1) i t0"
  obtain x w2 where run: "run_prog cd ?df (fn ?df) w1 = (x, w2)"
    by (cases "run_prog cd ?df (fn ?df) w1")
  have "acc w1 = acc w" using nd new_Date_acc [of w] by simp
  then obtain zs where zs: "results (acc w2) = results (acc w) @ zs" "None \<notin> set zs"
    using run_prog_results [of cd ?df "fn ?df" w1] run by auto
  let ?rs = "results (acc w2)"
  have full: "None \<notin> set ?rs" and len: "i \<le> length ?rs"
    using zs assms by auto
  obtain r where r: "results (acc (handle_step cd fn b i w)) =
      (if x \<noteq> None \<or> slot_empty ?rs i then js_assign ?rs i r else ?rs)"
    using handle_step_results [of w t0 w1 cd b i fn x w2, OF nd run] by blast
  show ?thesis
  proof (cases "i < length ?rs")
    case True
    then have "set (?rs[i := Some r]) \<subseteq> insert (Some r) (set ?rs)"
      by (simp add: set_update_subset_insert)
    with True full r show ?thesis
      by (auto simp add: js_assign_inside slot_empty_full)
  next
    case False
    with len have "i = length ?rs" by simp
    with full r show ?thesis
      by (auto simp add: js_assign_append slot_empty_full)
  qed
qed

lemma handle_step_one:
  assumes "length (results (acc w)) = i" and "None \<notin> set (results (acc w))"
    and "user_pushes cd fn b i w \<le> 1"
  shows "\<exists>r. results (acc (handle_step cd fn b i w)) = results (acc w) @ [Some r]"
proof -
  obtain t0 w1 where nd: "new_Date w = (t0, w1)" by (cases "new_Date w")
  let ?df = "getCurrentDurableEntityContext b (acc w1) i t0"
  obtain x w2 where run: "run_prog cd ?df (fn ?df) w1 = (x, w2)"
    by (cases "run_prog cd ?df (fn ?df) w1")
  have same: "acc w1 = acc w" using nd new_Date_acc [of w] by simp
  then obtain zs where zs: "results (acc w2) = results (acc w) @ zs" "None \<notin> set zs"
    using run_prog_results [of cd ?df "fn ?df" w1] run by auto
  have "length (results (acc w2)) - length (results (acc w1)) \<le> 1"
    using assms(3) nd run by (simp add: user_pushes_def Let_def)
  then have short: "length zs \<le> 1" using zs same by simp
  let ?rs = "results (acc w2)"
  have full: "None \<notin> set ?rs" using zs assms(2) by simp
  obtain r where r: "results (acc (handle_step cd fn b i w)) =
      (if x \<noteq> None \<or> slot_empty ?rs i then js_assign ?rs i r else ?rs)"
    using handle_step_results [of w t0 w1 cd b i fn x w2, OF nd run] by blast
  show ?thesis
  proof (cases zs)
    case Nil
    then have "?rs = results (acc w)" using zs by simp
    with r assms(1,2) show ?thesis
      by (auto simp add: js_assign_append slot_empty_full)
  next
    case (Cons z zs')
    with short have "zs' = []" by simp
    with Cons zs obtain r0 where z: "zs = [Some r0]" by (cases z) auto
    then have rs: "?rs = results (acc w) @ [Some r0]" using zs by simp
    have "js_assign ?rs i r = results (acc w) @ [Some r]"
      unfolding rs assms(1) [symmetric] by (rule js_assign_last)
    moreover have "\<not> slot_empty ?rs i"
      using full rs assms(1) by (simp add: slot_empty_full)
    ultimately show ?thesis using r rs by auto
  qed
qed

lemma handle_upto_Suc:
  "handle_upto cd fn b (Suc k) w = handle_step cd fn b k (handle_upto cd fn b k w)"
  by (simp add: handle_upto_def)

lemma handle_loop_from:
  "i \<le> length (batch b) \<Longrightarrow>
   handle_loop cd fn b i w = foldl (\<lambda>w' j. handle_step cd fn b j w') w [i..<length (batch b)]"
proof (induction cd fn b i w rule: handle_loop.induct)
  case (1 cd fn b i w)
  show ?case
  proof (cases "i < length (batch b)")
    case True
    then have "[i..<length (batch b)] = i # [Suc i..<length (batch b)]"
      by (simp add: upt_conv_Cons)
    with True "1.IH" show ?thesis by (subst handle_loop.simps) simp
  next
    case False
    with "1.prems" show ?thesis by (subst handle_loop.simps) simp
  qed
qed

lemma handle_loop_upto:
  "handle_loop cd fn b 0 w = handle_upto cd fn b (length (batch b)) w"
  by (simp add: handle_loop_from handle_upto_def)

lemma run_steps_append:
  "run_steps cd (xs @ ys) w = run_steps cd ys (run_steps cd xs w)"
  by (simp add: run_steps_def)

lemma run_prog_steps:
  "snd (run_prog cd df p w) = run_steps cd (calls_of cd df p w) w"
proof (induction p arbitrary: w)
  case Finish
  then show ?case by (simp add: run_steps_def)
next
  case (Raise e)
  then show ?case by (simp add: run_steps_def)
next
  case (Do op k)
  obtain r w' where step: "apply_op cd df op w = (r, w')" by (cases "apply_op cd df op w")
  have "k r \<in> range k" by simp
  from Do.IH [OF this, of w'] step show ?case
    by (simp add: run_steps_def)
qed

text \<open>The loop body runs exactly the steps listed for it, and so does the whole loop.\<close>

lemma handle_step_steps:
  "handle_step cd fn b i w = run_steps cd (request_steps cd fn b i w) w"
proof -
  obtain t0 w1 where nd: "new_Date w = (t0, w1)" by (cases "new_Date w")
  let ?df = "getCurrentDurableEntityContext b (acc w1) i t0"
  obtain x w2 where run: "run_prog cd ?df (fn ?df) w1 = (x, w2)"
    by (cases "run_prog cd ?df (fn ?df) w1")
  have calls: "run_steps cd (calls_of cd ?df (fn ?df) w1) w1 = w2"
    using run_prog_steps [of cd ?df "fn ?df" w1] run by simp
  have first: "run_steps cd (Tick # calls_of cd ?df (fn ?df) w1) w = w2"
    using calls nd by (simp add: run_steps_def)
  have close: "run_steps cd [Tick, Record i r] w2 = set_result i r (snd (new_Date w2))" for r
    by (simp add: run_steps_def)
  have elapsed: "computeElapsedMilliseconds t0 w2 = (clock w2 0 - t0, snd (new_Date w2))"
    by (simp add: computeElapsedMilliseconds_def new_Date_def)
  show ?thesis
  proof (cases x)
    case None
    with nd run first close elapsed show ?thesis
      by (simp add: handle_step_def request_steps_def Let_def)
         (simp add: run_steps_def)
  next
    case (Some e)
    with nd run first close elapsed show ?thesis
      by (simp add: handle_step_def request_steps_def Let_def)
         (simp add: run_steps_def)
  qed
qed

lemma handle_upto_steps:
  "handle_upto cd fn b k w = run_steps cd (upto_steps cd fn b w k) w"
proof (induction k)
  case 0
  then show ?case by (simp add: handle_upto_def run_steps_def)
next
  case (Suc k)
  then show ?case
    by (simp add: handle_upto_Suc handle_step_steps run_steps_append)
qed

lemma handle_steps:
  "handle cd fn (Some b) w =
     Inr (run_steps cd
            (upto_steps cd fn b (w\<lparr>acc := setup_returnState b\<rparr>) (length (batch b)))
            (w\<lparr>acc := setup_returnState b\<rparr>))"
  by (simp add: handle_def Let_def handle_loop_upto handle_upto_steps)

lemma handle_upto_grows:
  assumes "results (acc w) = []"
  shows "k \<le> length (results (acc (handle_upto cd fn b k w)))
         \<and> None \<notin> set (results (acc (handle_upto cd fn b k w)))"
proof (induction k)
  case 0
  then show ?case using assms by (simp add: handle_upto_def)
next
  case (Suc k)
  then show ?case
    using handle_step_grows [of k "handle_upto cd fn b k w" cd fn b]
    by (simp add: handle_upto_Suc)
qed

lemma handle_upto_exact:
  assumes "results (acc w) = []"
    and "\<forall>i \<in> {0..<n}. user_pushes cd fn b i (handle_upto cd fn b i w) \<le> 1"
  shows "k \<le> n \<Longrightarrow>
         length (results (acc (handle_upto cd fn b k w))) = k
         \<and> (\<forall>j \<le> k. results (acc (handle_upto cd fn b j w)) =
                      take j (results (acc (handle_upto cd fn b k w))))"
proof (induction k)
  case 0
  then show ?case using assms(1) by (simp add: handle_upto_def)
next
  case (Suc k)
  let ?w = "handle_upto cd fn b k w"
  from Suc.prems have "k \<le> n" by simp
  from Suc.IH [OF this]
  have len: "length (results (acc ?w)) = k"
    and pre: "\<forall>j \<le> k. results (acc (handle_upto cd fn b j w)) = take j (results (acc ?w))"
    by blast+
  have full: "None \<notin> set (results (acc ?w))"
    using handle_upto_grows [OF assms(1)] by simp
  have "user_pushes cd fn b k ?w \<le> 1" using assms(2) Suc.prems by simp
  from handle_step_one [OF len full this]
  obtain r where r: "results (acc (handle_upto cd fn b (Suc k) w)) = results (acc ?w) @ [Some r]"
    by (auto simp add: handle_upto_Suc)
  have "results (acc (handle_upto cd fn b j w)) =
          take j (results (acc (handle_upto cd fn b (Suc k) w)))" if "j \<le> Suc k" for j
  proof (cases "j \<le> k")
    case True
    with pre have "results (acc (handle_upto cd fn b j w)) = take j (results (acc ?w))"
      by blast
    with True show ?thesis by (simp add: r len)
  next
    case False
    with that have "j = Suc k" by simp
    then show ?thesis by (simp add: r len)
  qed
  moreover have "length (results (acc (handle_upto cd fn b (Suc k) w))) = Suc k"
    by (simp add: r len)
  ultimately show ?case by blast
qed

text \<open>
  Claim C1, amended. For a batch of \<open>N\<close> requests the results handed to the host
  have at least \<open>N\<close> entries and no empty slot. When the user logic of no request
  appends more than one result of its own (by \<^verbatim>\<open>return\<close>, or by a \<^verbatim>\<open>dispatch\<close>
  that runs to its end), there are exactly \<open>N\<close> entries, in the order of the
  requests: the results after the first \<open>k\<close> requests are the first \<open>k\<close> entries
  of the final results, whether the operations succeeded or failed.
\<close>

theorem handle_one_result_per_request:
  assumes "handle cd fn (Some b) w = Inr wd"
  shows "length (batch b) \<le> length (results (acc wd))
     \<and> None \<notin> set (results (acc wd))
     \<and> ((\<forall>i \<in> {0..<length (batch b)}.
            user_pushes cd fn b i (handle_upto cd fn b i (w\<lparr>acc := setup_returnState b\<rparr>)) \<le> 1)
          \<longrightarrow> length (results (acc wd)) = length (batch b)
              \<and> (\<forall>k \<le> length (batch b).
                    results (acc (handle_upto cd fn b k (w\<lparr>acc := setup_returnState b\<rparr>)))
                      = take k (results (acc wd))))"
proof -
  let ?w0 = "w\<lparr>acc := setup_returnState b\<rparr>"
  have wd: "wd = handle_upto cd fn b (length (batch b)) ?w0"
    using assms by (simp add: handle_def Let_def handle_loop_upto)
  have empty: "results (acc ?w0) = []" by (simp add: setup_returnState_def)
  have atleast: "length (batch b) \<le> length (results (acc wd))
      \<and> None \<notin> set (results (acc wd))"
    unfolding wd by (rule handle_upto_grows [OF empty])
  have exact: "length (results (acc wd)) = length (batch b)
      \<and> (\<forall>k \<le> length (batch b).
            results (acc (handle_upto cd fn b k ?w0)) = take k (results (acc wd)))"
    if "\<forall>i \<in> {0..<length (batch b)}.
          user_pushes cd fn b i (handle_upto cd fn b i ?w0) \<le> 1"
    unfolding wd by (rule handle_upto_exact [OF empty that order_refl])
  from atleast exact show ?thesis by blast
qed

theorem handle_one_result_per_request_witness:
  "length (results (acc (handle_loop sample_codec mixed_fn (binding_of mixed_batch) 0
       (world0\<lparr>acc := setup_returnState (binding_of mixed_batch)\<rparr>)))) = 3
   \<and> results (acc (handle_upto sample_codec mixed_fn (binding_of mixed_batch) 2
       (world0\<lparr>acc := setup_returnState (binding_of mixed_batch)\<rparr>))) =
       take 2 (results (acc (handle_loop sample_codec mixed_fn (binding_of mixed_batch) 0
         (world0\<lparr>acc := setup_returnState (binding_of mixed_batch)\<rparr>))))"
proof -
  let ?b = "binding_of mixed_batch"
  let ?w0 = "world0\<lparr>acc := setup_returnState ?b\<rparr>"
  have run: "handle sample_codec mixed_fn (Some ?b) world0 =
               Inr (handle_loop sample_codec mixed_fn ?b 0 ?w0)"
    by (simp add: handle_def)
  have once: "\<forall>i \<in> {0..<length (batch ?b)}.
      user_pushes sample_codec mixed_fn ?b i (handle_upto sample_codec mixed_fn ?b i ?w0) \<le> 1"
    by code_simp
  have n: "length (batch ?b) = 3"
    by (simp add: binding_of_def mixed_batch_def)
  from handle_one_result_per_request [OF run] once n
  show ?thesis by simp
qed

text \<open>The three results of that batch: a success, a failure, an empty success.\<close>

lemma mixed_batch_example:
  "handed (handle sample_codec mixed_fn (Some (binding_of mixed_batch)) world0) =
     Some \<lparr>entityExists = True, entityState = Some (''{'' @ quote ''counter'' @ '':5}''),
           results = [Some \<lparr>isError = False, duration = 1, result = Some ''5''\<rparr>,
                      Some \<lparr>isError = True, duration = 1, result = Some ''1''\<rparr>,
                      Some \<lparr>isError = False, duration = 1, result = None\<rparr>],
           signals = []\<rparr>"
  by code_simp

text \<open>
  The claim as first stated fails when user logic calls \<^verbatim>\<open>return\<close> twice for one
  request: a batch of one request ends with two results.
\<close>

theorem return_twice_counterexample:
  "length (batch (binding_of [add_request])) = 1
   \<and> handed (handle sample_codec return_twice_fn (Some (binding_of [add_request])) world0) =
       Some \<lparr>entityExists = True, entityState = None,
             results = [Some \<lparr>isError = False, duration = 1, result = Some ''1''\<rparr>,
                        Some \<lparr>isError = False, duration = 2, result = Some ''2''\<rparr>],
             signals = []\<rparr>"
  by code_simp

text \<open>
  Whatever the request and the entity: when \<^verbatim>\<open>dispatch\<close> rejects, the world is
  as before the call, and the loop body of \<^verbatim>\<open>handle\<close> around user logic that
  only dispatches writes a success with no payload into the empty slot.
\<close>

lemma dispatch_rejecting_world:
  "fst (dispatch cd req t0 f w) = Rejecting e \<Longrightarrow> snd (dispatch cd req t0 f w) = w"
  unfolding dispatch_def
  by (auto simp add: Let_def split: sum.splits call_result.splits if_splits)

lemma rejected_dispatch_step:
  assumes "new_Date w = (t0, w1)"
    and "fst (dispatch cd (batch b ! i) t0 f w1) = Rejecting e"
    and "slot_empty (results (acc w)) i"
  shows "results (acc (handle_step cd (\<lambda>df. Do (Dispatch f) (\<lambda>r. Finish)) b i w)) =
           js_assign (results (acc w)) i
             \<lparr>isError = False, duration = clock w1 0 - t0, result = None\<rparr>"
proof -
  let ?df = "getCurrentDurableEntityContext b (acc w1) i t0"
  have req: "currentRequest ?df = batch b ! i" and st: "startTime ?df = t0"
    by (simp_all add: getCurrentDurableEntityContext_def Let_def)
  have same: "acc w1 = acc w" using assms(1) new_Date_acc [of w] by simp
  have run: "run_prog cd ?df (Do (Dispatch f) (\<lambda>r. Finish)) w1 = (None, w1)"
    using dispatch_rejecting_world [OF assms(2)] by (simp add: apply_op_def req st)
  show ?thesis
    using assms(1,3) run same
    by (simp add: handle_step_def Let_def set_result_def computeElapsedMilliseconds_def
          new_Date_def)
qed

text \<open>
  Claim C2, on the code. A failure inside \<^verbatim>\<open>dispatch\<close> rejects the promise that
  \<^verbatim>\<open>dispatch\<close> returns and is not thrown into \<^verbatim>\<open>handle\<close>, which does not await
  the user function: for an empty operation name and for a name that is no
  method, the request is recorded as a success with no payload.
\<close>

theorem dispatch_failure_recorded_as_success:
  "fst (dispatch sample_codec (failing_batch ! 0) 0 (Inr new_Counter) world0)
     = Rejecting (JsError ''Undefined operation'')
   \<and> fst (dispatch sample_codec (failing_batch ! 1) 0 (Inr new_Counter) world0)
     = Rejecting (JsError (''Method '' @ quote ''nope'' @ '' does not exist in entity''))
   \<and> handed (handle sample_codec dispatch_fn (Some (binding_of failing_batch)) world0) =
       Some \<lparr>entityExists = False, entityState = None,
             results = [Some \<lparr>isError = False, duration = 1, result = None\<rparr>,
                        Some \<lparr>isError = False, duration = 1, result = None\<rparr>],
             signals = []\<rparr>"
  by code_simp

text \<open>
  Claim C4, on the code. \<^verbatim>\<open>handle\<close> does not await a suspended \<^verbatim>\<open>dispatch\<close>: when
  the first request calls an asynchronous method, the loop records an empty
  success for it, processes the second request against the state as it was
  before, and hands the accumulator to the host with the rest of the first
  request still pending. When that rest runs it overwrites the state and
  appends a third result.
\<close>

theorem suspended_dispatch_not_awaited:
  "(case handle sample_codec dispatch_fn (Some (binding_of later_batch)) world0 of
      Inl e \<Rightarrow> False
    | Inr w \<Rightarrow>
        acc w =
          \<lparr>entityExists = True, entityState = Some (''{'' @ quote ''counter'' @ '':0}''),
           results = [Some \<lparr>isError = False, duration = 1, result = None\<rparr>,
                      Some \<lparr>isError = False, duration = 1, result = Some ''0''\<rparr>],
           signals = []\<rparr>
        \<and> length (pending w) = 1
        \<and> acc (run_pending sample_codec w) =
          \<lparr>entityExists = True, entityState = Some (''{'' @ quote ''counter'' @ '':5}''),
           results = [Some \<lparr>isError = False, duration = 1, result = None\<rparr>,
                      Some \<lparr>isError = False, duration = 1, result = Some ''0''\<rparr>,
                      Some \<lparr>isError = False, duration = 4, result = Some ''5''\<rparr>],
           signals = []\<rparr>)"
  by code_simp

end
